theory Spec2Isabelle
  imports Complex_Main
begin

section \<open>Harmonic oscillator scene: data model\<close>

text \<open>
  The development embeds \<^verbatim>\<open>HarmonicOscillatorEnergyAnalysis\<close> of
  \<^verbatim>\<open>src/Tutoring/solution.py\<close>. Python floats are modelled as real numbers
  (rounding is not modelled), numpy's three-component points as triples of reals, and
  Python strings as lists of Unicode code points.
\<close>

type_synonym vec3 = "real \<times> real \<times> real"

definition vadd :: "vec3 \<Rightarrow> vec3 \<Rightarrow> vec3" where
  "vadd p q = (case p of (a, b, c) \<Rightarrow> case q of (x, y, z) \<Rightarrow> (a + x, b + y, c + z))"

definition vsub :: "vec3 \<Rightarrow> vec3 \<Rightarrow> vec3" where
  "vsub p q = (case p of (a, b, c) \<Rightarrow> case q of (x, y, z) \<Rightarrow> (a - x, b - y, c - z))"

definition smul :: "real \<Rightarrow> vec3 \<Rightarrow> vec3" where
  "smul k p = (case p of (a, b, c) \<Rightarrow> (k * a, k * b, k * c))"

definition norm3 :: "vec3 \<Rightarrow> real" where
  "norm3 p = (case p of (a, b, c) \<Rightarrow> sqrt (a * a + b * b + c * c))"

definition ORIGIN :: vec3 where "ORIGIN = (0, 0, 0)"

definition UP :: vec3 where "UP = (0, 1, 0)"

definition DOWN :: vec3 where "DOWN = (0, -1, 0)"

definition RIGHT :: vec3 where "RIGHT = (1, 0, 0)"

definition LEFT :: vec3 where "LEFT = (-1, 0, 0)"

text \<open>Constants assigned once in \<^verbatim>\<open>__init__\<close> and never reassigned.\<close>

definition DIAGRAM_BASELINE_SHIFT :: vec3 where
  "DIAGRAM_BASELINE_SHIFT = smul (1 / 2) UP"

definition TEXT_FLOW_SHIFT :: vec3 where
  "TEXT_FLOW_SHIFT = smul 3 UP"

definition text_center_position :: vec3 where
  "text_center_position = vadd (smul 3 RIGHT) (smul (1 / 2) UP)"

definition period :: real where "period = 4"

definition wall_x :: real where "wall_x = - (9 / 2)"

definition equilibrium_x :: real where "equilibrium_x = - (5 / 2)"

definition amplitude_visual :: real where "amplitude_visual = 1"

datatype colour = YELLOW | BLUE | GRAY | RED | GREEN | WHITE

definition colors_mass :: colour where "colors_mass = YELLOW"

definition colors_spring :: colour where "colors_spring = BLUE"

text \<open>
  Mobjects are Python objects with identity: the scene holds references to them, and
  animations mutate them in place. A reference is a value of \<open>mobj\<close>; the scene
  carries a store from references to the current centre of each mobject.
\<close>

datatype mobj =
    Wall | Spring | Mass | EquilibriumLine | AmplitudeMarkers | Dummy
  | TextObj nat

datatype animation =
    Create mobj
  | Shift mobj vec3
  | FadeIn mobj real
  | SetColor mobj colour

text \<open>
  The calls the scene makes into the renderer, in order: \<^verbatim>\<open>self.play(*anims, run_time=r)\<close>
  and \<^verbatim>\<open>self.remove(m)\<close>.
\<close>

datatype event = Play "animation list" real | Remove mobj

record scene =
  text_content_stack :: "mobj list"
  centre :: "mobj \<Rightarrow> vec3"
  timeline :: "event list"
  renderer_time :: "real option"

text \<open>
  \<open>renderer_time\<close> is \<^verbatim>\<open>self.renderer.time\<close>, \<open>None\<close> when the renderer has no such
  attribute. The source only reads it; the renderer advances it while it plays.
\<close>

definition init_scene :: scene where
  "init_scene = \<lparr> text_content_stack = [], centre = (\<lambda>_. ORIGIN), timeline = [],
                  renderer_time = None \<rparr>"

text \<open>
  The end state of one animation on the store of centres: a shift moves its mobject,
  the other animations leave every centre where it is.
\<close>

fun animate :: "animation \<Rightarrow> (mobj \<Rightarrow> vec3) \<Rightarrow> (mobj \<Rightarrow> vec3)" where
  "animate (Shift m v) c = c(m := vadd (c m) v)"
| "animate (Create m) c = c"
| "animate (FadeIn m k) c = c"
| "animate (SetColor m k) c = c"

definition play :: "animation list \<Rightarrow> real \<Rightarrow> scene \<Rightarrow> scene" where
  "play anims run_time s =
     s\<lparr> centre := fold animate anims (centre s),
        timeline := timeline s @ [Play anims run_time] \<rparr>"

definition remove_mobject :: "mobj \<Rightarrow> scene \<Rightarrow> scene" where
  "remove_mobject m s = s\<lparr> timeline := timeline s @ [Remove m] \<rparr>"

definition move_to :: "mobj \<Rightarrow> vec3 \<Rightarrow> scene \<Rightarrow> scene" where
  "move_to m p s = s\<lparr> centre := (centre s)(m := p) \<rparr>"

section \<open>Overlay stack: \<^verbatim>\<open>add_flowing_text\<close>\<close>

definition add_flowing_text :: "mobj \<Rightarrow> scene \<Rightarrow> scene" where
  "add_flowing_text text_content s0 =
     (let s1 = move_to text_content text_center_position s0;
          s2 = (if length (text_content_stack s1) > 0
                then (let flow_animations =
                            map (\<lambda>existing_content. Shift existing_content TEXT_FLOW_SHIFT)
                              (text_content_stack s1)
                      in if flow_animations \<noteq> [] then play flow_animations (1 / 2) s1 else s1)
                else s1);
          s3 = s2\<lparr> text_content_stack := text_content_stack s2 @ [text_content] \<rparr>;
          s4 = play [FadeIn text_content (11 / 10)] (4 / 5) s3
      in if length (text_content_stack s4) > 6
         then (case text_content_stack s4 of
                 oldest_content # rest \<Rightarrow>
                   remove_mobject oldest_content (s4\<lparr> text_content_stack := rest \<rparr>)
               | [] \<Rightarrow> s4)
         else s4)"

section \<open>Narration blocks and the keep-alive animation\<close>

definition keep_animation_running :: "real \<Rightarrow> scene \<Rightarrow> scene" where
  "keep_animation_running duration s0 =
     (let s1 = move_to Dummy ORIGIN s0;
          s2 = play [Shift Dummy (smul (1 / 1000) UP)] duration s1
      in remove_mobject Dummy s2)"

text \<open>
  \<^verbatim>\<open>create_spring_mass_system\<close> and \<^verbatim>\<open>create_amplitude_markers\<close> construct
  mobjects and store them in attributes; of their effects only the placement of the wall
  shows in the state modelled here.
\<close>

definition create_spring_mass_system :: "scene \<Rightarrow> scene" where
  "create_spring_mass_system s =
     move_to Wall (vadd (smul wall_x RIGHT) DIAGRAM_BASELINE_SHIFT) s"

definition highlight_amplitude_concept :: "scene \<Rightarrow> scene" where
  "highlight_amplitude_concept s0 =
     (let s1 = play [SetColor AmplitudeMarkers YELLOW] (3 / 5) s0
      in play [SetColor AmplitudeMarkers BLUE] (3 / 5) s1)"

text \<open>
  The three \<^verbatim>\<open>with self.voiceover(...) as tracker\<close> blocks of
  \<^verbatim>\<open>scene_1_oscillator_setup\<close>. The argument \<open>tracker_duration\<close> is
  \<^verbatim>\<open>tracker.duration\<close>, supplied by the voiceover library; \<open>amplitude_text\<close> and
  \<open>motion_text\<close> are the references of the text objects that
  \<^verbatim>\<open>create_superscript_text\<close> has just returned. What the voiceover library does
  on leaving a block belongs to that library, not to the source, and is not modelled: the
  timeline holds the calls that the body of each block makes.
\<close>

definition scene_1_voiceover_1 :: "real \<Rightarrow> scene \<Rightarrow> scene" where
  "scene_1_voiceover_1 tracker_duration s0 =
     (let s1 = create_spring_mass_system s0;
          s2 = play [Create Wall, Create Spring, Create Mass, Create EquilibriumLine]
                 (min 3 (tracker_duration * (1 / 2))) s1;
          s3 = play [Create AmplitudeMarkers] 1 s2;
          remaining_time = max 0 (tracker_duration - 4)
      in if remaining_time > 0 then keep_animation_running remaining_time s3 else s3)"

definition scene_1_voiceover_2 :: "real \<Rightarrow> mobj \<Rightarrow> scene \<Rightarrow> scene" where
  "scene_1_voiceover_2 tracker_duration amplitude_text s0 =
     (let s1 = highlight_amplitude_concept s0;
          s2 = add_flowing_text amplitude_text s1;
          remaining_time = max 0 (tracker_duration - 2)
      in if remaining_time > 0 then keep_animation_running remaining_time s2 else s2)"

definition scene_1_voiceover_3 :: "real \<Rightarrow> mobj \<Rightarrow> scene \<Rightarrow> scene" where
  "scene_1_voiceover_3 tracker_duration motion_text s0 =
     (let s1 = add_flowing_text motion_text s0;
          remaining_time = max 0 (tracker_duration - 1)
      in if remaining_time > 0 then keep_animation_running remaining_time s1 else s1)"

definition scene_1_oscillator_setup ::
    "real \<Rightarrow> real \<Rightarrow> real \<Rightarrow> mobj \<Rightarrow> mobj \<Rightarrow> scene \<Rightarrow> scene" where
  "scene_1_oscillator_setup d1 d2 d3 amplitude_text motion_text s =
     scene_1_voiceover_3 d3 motion_text
       (scene_1_voiceover_2 d2 amplitude_text (scene_1_voiceover_1 d1 s))"

text \<open>
  Reading a timeline: the run time an event asks for, whether it is the keep-alive play
  (the shift of the invisible dummy dot), and the totals over a list of events.
\<close>

fun run_time_of :: "event \<Rightarrow> real" where
  "run_time_of (Play anims r) = r"
| "run_time_of (Remove m) = 0"

fun is_keep_alive :: "event \<Rightarrow> bool" where
  "is_keep_alive (Play anims r) = (anims = [Shift Dummy (smul (1 / 1000) UP)])"
| "is_keep_alive (Remove m) = False"

definition elapsed :: "event list \<Rightarrow> real" where
  "elapsed es = sum_list (map run_time_of es)"

definition keep_alive_run_times :: "event list \<Rightarrow> real list" where
  "keep_alive_run_times es = map run_time_of (filter is_keep_alive es)"

fun is_action :: "event \<Rightarrow> bool" where
  "is_action (Play anims r) = (anims \<noteq> [Shift Dummy (smul (1 / 1000) UP)])"
| "is_action (Remove m) = False"

definition action_run_times :: "event list \<Rightarrow> real list" where
  "action_run_times es = map run_time_of (filter is_action es)"

section \<open>Concrete scenes\<close>

text \<open>Two concrete runs: six posts onto the empty stack, and a list of seven
  text objects to post.\<close>

definition full_stack_scene :: scene where
  "full_stack_scene =
     fold add_flowing_text
       [TextObj 0, TextObj 1, TextObj 2, TextObj 3, TextObj 4, TextObj 5] init_scene"

definition seven_posts :: "mobj list" where
  "seven_posts =
     [TextObj 0, TextObj 1, TextObj 2, TextObj 3, TextObj 4, TextObj 5, TextObj 6]"

section \<open>Physical model and the redraw functions\<close>

definition current_time :: "scene \<Rightarrow> real" where
  "current_time s = (case renderer_time s of Some t \<Rightarrow> t | None \<Rightarrow> 0)"

text \<open>
  The displacement \<^verbatim>\<open>amplitude_visual * np.cos(2 * np.pi * current_time / period)\<close>,
  written out in \<^verbatim>\<open>draw_constrained_spring\<close>, \<^verbatim>\<open>draw_constrained_mass\<close> and
  \<^verbatim>\<open>get_potential_energy_fraction\<close>, and the clamp that
  \<^verbatim>\<open>draw_constrained_mass\<close> applies to it.
\<close>

definition harmonic_offset :: "real \<Rightarrow> real" where
  "harmonic_offset t = amplitude_visual * cos (2 * pi * t / period)"

definition clamp_offset :: "real \<Rightarrow> real" where
  "clamp_offset position_offset =
     (if \<bar>position_offset\<bar> > amplitude_visual then sgn position_offset * amplitude_visual
      else position_offset)"

datatype drawing =
    Circle real colour real real colour vec3
  | VMobjectPath "vec3 list" colour real
  | Line vec3 vec3 colour real

definition draw_constrained_mass :: "scene \<Rightarrow> drawing" where
  "draw_constrained_mass s =
     (let position_offset = clamp_offset (harmonic_offset (current_time s));
          mass_x = equilibrium_x + position_offset;
          mass_position = (mass_x, fst (snd DIAGRAM_BASELINE_SHIFT), 0)
      in Circle (1 / 5) colors_mass (4 / 5) 3 colors_mass mass_position)"

definition py_int :: "real \<Rightarrow> int" where
  "py_int x = (if x \<ge> 0 then \<lfloor>x\<rfloor> else \<lceil>x\<rceil>)"

definition linspace :: "real \<Rightarrow> real \<Rightarrow> nat \<Rightarrow> real list" where
  "linspace start stop num =
     map (\<lambda>i. start + real i * ((stop - start) / real (num - 1))) [0..<num]"

definition draw_constrained_spring :: "scene \<Rightarrow> drawing" where
  "draw_constrained_spring s =
     (let position_offset = harmonic_offset (current_time s);
          mass_x = equilibrium_x + position_offset;
          wall_attachment = (wall_x + 3 / 20, fst (snd DIAGRAM_BASELINE_SHIFT), 0);
          mass_attachment = (mass_x - 1 / 5, fst (snd DIAGRAM_BASELINE_SHIFT), 0);
          spring_length = norm3 (vsub mass_attachment wall_attachment);
          num_coils = max 6 (py_int (8 * spring_length / 2));
          t_values = linspace 0 1 (nat (num_coils * 4));
          coil_amplitude = 1 / 10;
          spring_points =
            map (\<lambda>t. vadd (vadd wall_attachment (smul t (vsub mass_attachment wall_attachment)))
                         (smul (coil_amplitude * sin (2 * pi * real_of_int num_coils * t)) UP))
              t_values
      in if length spring_points > 1 then VMobjectPath spring_points colors_spring 3
         else Line wall_attachment mass_attachment colors_spring 3)"

definition ke_max :: real where
  "ke_max = (1 / 2) * (amplitude_visual * 2 * pi / period) ^ 2"

definition pe_max :: real where
  "pe_max = (1 / 2) * amplitude_visual ^ 2"

definition get_kinetic_energy_fraction :: "scene \<Rightarrow> real" where
  "get_kinetic_energy_fraction s =
     (let velocity = - amplitude_visual * (2 * pi / period)
                       * sin (2 * pi * current_time s / period);
          ke_current = (1 / 2) * velocity ^ 2
      in if ke_max > 1 / 10 ^ 10 then ke_current / ke_max else 0)"

definition get_potential_energy_fraction :: "scene \<Rightarrow> real" where
  "get_potential_energy_fraction s =
     (let position_offset = harmonic_offset (current_time s);
          pe_current = (1 / 2) * position_offset ^ 2
      in if pe_max > 1 / 10 ^ 10 then pe_current / pe_max else 0)"

text \<open>
  The energies themselves, before the division: \<^verbatim>\<open>ke_current\<close> of
  \<^verbatim>\<open>get_kinetic_energy_fraction\<close> (unit mass) and \<^verbatim>\<open>pe_current\<close> of
  \<^verbatim>\<open>get_potential_energy_fraction\<close> (unit spring constant), at clock time \<open>t\<close>;
  and the attribute \<^verbatim>\<open>total_energy\<close> of \<^verbatim>\<open>__init__\<close>, which neither function
  reads.
\<close>

definition ke_current :: "real \<Rightarrow> real" where
  "ke_current t =
     (let velocity = - amplitude_visual * (2 * pi / period) * sin (2 * pi * t / period)
      in (1 / 2) * velocity ^ 2)"

definition pe_current :: "real \<Rightarrow> real" where
  "pe_current t =
     (let position_offset = harmonic_offset t
      in (1 / 2) * position_offset ^ 2)"

definition total_energy :: real where "total_energy = 160"

section \<open>Notation formatting: \<^verbatim>\<open>create_superscript_text\<close>\<close>

text \<open>
  A Python string is a sequence of Unicode code points. \<open>cps\<close> turns an ASCII literal
  into its code points; the non-ASCII replacements are given by number.
\<close>

type_synonym pystr = "nat list"

definition cps :: "string \<Rightarrow> pystr" where
  "cps = map of_char"

definition SUPERSCRIPT_TWO :: nat where "SUPERSCRIPT_TWO = 178"

definition SUPERSCRIPT_THREE :: nat where "SUPERSCRIPT_THREE = 179"

definition SUPERSCRIPT_FOUR :: nat where "SUPERSCRIPT_FOUR = 8308"

definition SUPERSCRIPT_SIX :: nat where "SUPERSCRIPT_SIX = 8310"

definition SUPERSCRIPT_MINUS :: nat where "SUPERSCRIPT_MINUS = 8315"

definition GREEK_OMEGA :: nat where "GREEK_OMEGA = 969"

definition GREEK_PI :: nat where "GREEK_PI = 960"

definition GREEK_THETA :: nat where "GREEK_THETA = 952"

definition ONE_HALF :: nat where "ONE_HALF = 189"

definition SQUARE_ROOT :: nat where "SQUARE_ROOT = 8730"

text \<open>
  \<^verbatim>\<open>str.replace(old, new)\<close>: scanning from the left, every occurrence of \<open>old\<close> that
  does not overlap an earlier one is replaced by \<open>new\<close>. With an empty \<open>old\<close>, Python
  inserts \<open>new\<close> before every character and at the end.
\<close>

function replace_nonempty :: "'a list \<Rightarrow> 'a list \<Rightarrow> 'a list \<Rightarrow> 'a list" where
  "replace_nonempty old new [] = []"
| "replace_nonempty old new (c # cs) =
     (if old \<noteq> [] \<and> take (length old) (c # cs) = old
      then new @ replace_nonempty old new (drop (length old) (c # cs))
      else c # replace_nonempty old new cs)"
  by pat_completeness auto

termination
  by (relation "measure (\<lambda>(old, new, s). length s)") auto

definition str_replace :: "'a list \<Rightarrow> 'a list \<Rightarrow> 'a list \<Rightarrow> 'a list" where
  "str_replace old new s =
     (if old = [] then new @ concat (map (\<lambda>c. c # new) s) else replace_nonempty old new s)"

record text_mobject =
  text_value :: pystr
  font_size :: real
  color :: colour

definition create_superscript_text :: "pystr \<Rightarrow> colour \<Rightarrow> real \<Rightarrow> text_mobject" where
  "create_superscript_text text_string col fsize =
     (let t1 = str_replace (cps ''^2'') [SUPERSCRIPT_TWO] text_string;
          t2 = str_replace (cps ''^3'') [SUPERSCRIPT_THREE] t1;
          t3 = str_replace (cps ''v^2'') (cps ''v'' @ [SUPERSCRIPT_TWO]) t2;
          t4 = str_replace (cps ''x^2'') (cps ''x'' @ [SUPERSCRIPT_TWO]) t3;
          t5 = str_replace (cps ''A^2'') (cps ''A'' @ [SUPERSCRIPT_TWO]) t4;
          t6 = str_replace (cps ''w^2'') [GREEK_OMEGA, SUPERSCRIPT_TWO] t5;
          t7 = str_replace (cps ''omega^2'') [GREEK_OMEGA, SUPERSCRIPT_TWO] t6;
          t8 = str_replace (cps ''10^6'') (cps ''10'' @ [SUPERSCRIPT_SIX]) t7;
          t9 = str_replace (cps ''10^-4'') (cps ''10'' @ [SUPERSCRIPT_MINUS, SUPERSCRIPT_FOUR]) t8;
          t10 = str_replace (cps ''omega'') [GREEK_OMEGA] t9;
          t11 = str_replace (cps ''pi'') [GREEK_PI] t10;
          t12 = str_replace (cps ''theta'') [GREEK_THETA] t11;
          t13 = str_replace (cps ''1/2'') [ONE_HALF] t12;
          t14 = str_replace (cps ''sqrt'') [SQUARE_ROOT] t13
      in \<lparr> text_value = t14, font_size = fsize, color = col \<rparr>)"

text \<open>
  The variant to compare with (C9): the same function with the five replacement lines
  for \<^verbatim>\<open>v^2\<close>, \<^verbatim>\<open>x^2\<close>, \<^verbatim>\<open>A^2\<close>, \<^verbatim>\<open>w^2\<close> and \<^verbatim>\<open>omega^2\<close> deleted.
\<close>

definition create_superscript_text_without_square_lines ::
    "pystr \<Rightarrow> colour \<Rightarrow> real \<Rightarrow> text_mobject" where
  "create_superscript_text_without_square_lines text_string col fsize =
     (let t1 = str_replace (cps ''^2'') [SUPERSCRIPT_TWO] text_string;
          t2 = str_replace (cps ''^3'') [SUPERSCRIPT_THREE] t1;
          t8 = str_replace (cps ''10^6'') (cps ''10'' @ [SUPERSCRIPT_SIX]) t2;
          t9 = str_replace (cps ''10^-4'') (cps ''10'' @ [SUPERSCRIPT_MINUS, SUPERSCRIPT_FOUR]) t8;
          t10 = str_replace (cps ''omega'') [GREEK_OMEGA] t9;
          t11 = str_replace (cps ''pi'') [GREEK_PI] t10;
          t12 = str_replace (cps ''theta'') [GREEK_THETA] t11;
          t13 = str_replace (cps ''1/2'') [ONE_HALF] t12;
          t14 = str_replace (cps ''sqrt'') [SQUARE_ROOT] t13
      in \<lparr> text_value = t14, font_size = fsize, color = col \<rparr>)"

text \<open>\<open>occurs old s\<close>: the string \<open>s\<close> contains \<open>old\<close> as a contiguous piece.\<close>

fun occurs :: "'a list \<Rightarrow> 'a list \<Rightarrow> bool" where
  "occurs old [] = (old = [])"
| "occurs old (c # cs) = (take (length old) (c # cs) = old \<or> occurs old cs)"

section \<open>Overlay stack: bound and eviction order\<close>

lemma stack_add_flowing_text:
  "text_content_stack (add_flowing_text x s) =
     (if length (text_content_stack s) \<ge> 6 then tl (text_content_stack s) @ [x]
      else text_content_stack s @ [x])"
  by (cases "text_content_stack s")
     (simp_all add: add_flowing_text_def Let_def play_def move_to_def remove_mobject_def)

lemma stack_fold_add_flowing_text:
  "length (text_content_stack s) \<le> 6 \<Longrightarrow>
   text_content_stack (fold add_flowing_text xs s) =
     drop (length (text_content_stack s @ xs) - 6) (text_content_stack s @ xs)"
proof (induction xs arbitrary: s)
  case Nil
  then show ?case by simp
next
  case (Cons x xs)
  let ?st = "text_content_stack s"
  let ?s' = "add_flowing_text x s"
  show ?case
  proof (cases "length ?st = 6")
    case True
    then obtain y ys where st: "?st = y # ys" by (cases ?st) auto
    from True st have len: "length ys = 5" by simp
    have stk: "text_content_stack ?s' = ys @ [x]"
      using True st by (simp add: stack_add_flowing_text)
    have "text_content_stack (fold add_flowing_text xs ?s') =
            drop (length ((ys @ [x]) @ xs) - 6) ((ys @ [x]) @ xs)"
      using Cons.IH [of ?s'] stk len by simp
    then show ?thesis using st len by simp
  next
    case False
    with Cons.prems have lt: "length ?st < 6" by simp
    have stk: "text_content_stack ?s' = ?st @ [x]"
      using lt by (simp add: stack_add_flowing_text)
    have "text_content_stack (fold add_flowing_text xs ?s') =
            drop (length ((?st @ [x]) @ xs) - 6) ((?st @ [x]) @ xs)"
      using Cons.IH [of ?s'] stk lt by simp
    then show ?thesis by simp
  qed
qed

text \<open>
  C2. Starting from the empty stack of \<^verbatim>\<open>__init__\<close>, after any sequence \<open>xs\<close> of
  \<^verbatim>\<open>add_flowing_text\<close> calls the stack holds exactly the last six posted entries in
  posting order (all of them when fewer than six were posted): its length is at most 6
  and the entries dropped are the oldest ones, first in first out.
\<close>

theorem overlay_stack_bounded_fifo:
  "text_content_stack (fold add_flowing_text xs init_scene) = drop (length xs - 6) xs
   \<and> length (text_content_stack (fold add_flowing_text xs init_scene)) \<le> 6"
proof -
  have "text_content_stack (fold add_flowing_text xs init_scene) = drop (length xs - 6) xs"
    using stack_fold_add_flowing_text [of init_scene xs] by (simp add: init_scene_def)
  then show ?thesis by simp
qed

section \<open>Order of the steps of one post\<close>

lemma timeline_add_flowing_text:
  "timeline (add_flowing_text x s) =
     timeline s
     @ (if text_content_stack s \<noteq> []
        then [Play (map (\<lambda>m. Shift m TEXT_FLOW_SHIFT) (text_content_stack s)) (1 / 2)]
        else [])
     @ [Play [FadeIn x (11 / 10)] (4 / 5)]
     @ (case text_content_stack s of
          [] \<Rightarrow> []
        | oldest # rest \<Rightarrow> if length rest \<ge> 5 then [Remove oldest] else [])"
  by (cases "text_content_stack s")
     (simp_all add: add_flowing_text_def Let_def play_def move_to_def remove_mobject_def)

lemma stack_full_stack_scene:
  "text_content_stack full_stack_scene =
     [TextObj 0, TextObj 1, TextObj 2, TextObj 3, TextObj 4, TextObj 5]"
  unfolding full_stack_scene_def
  using stack_fold_add_flowing_text
          [of init_scene "[TextObj 0, TextObj 1, TextObj 2, TextObj 3, TextObj 4, TextObj 5]"]
  by (simp add: init_scene_def)

text \<open>
  C3, as stated, fails: posting onto a stack of six, the six existing entries are
  shifted first (the oldest, \<open>TextObj 0\<close>, among them), then the new entry is faded in,
  and the removal of the oldest entry is the last call of the post.
\<close>

theorem eviction_before_shift_counterexample:
  "timeline (add_flowing_text (TextObj 6) full_stack_scene) =
     timeline full_stack_scene
     @ [Play [Shift (TextObj 0) TEXT_FLOW_SHIFT, Shift (TextObj 1) TEXT_FLOW_SHIFT,
              Shift (TextObj 2) TEXT_FLOW_SHIFT, Shift (TextObj 3) TEXT_FLOW_SHIFT,
              Shift (TextObj 4) TEXT_FLOW_SHIFT, Shift (TextObj 5) TEXT_FLOW_SHIFT] (1 / 2),
        Play [FadeIn (TextObj 6) (11 / 10)] (4 / 5),
        Remove (TextObj 0)]"
  by (simp add: timeline_add_flowing_text stack_full_stack_scene)

text \<open>
  C3, amended. In a post that starts with six entries on the stack, the calls are, in
  this order: one play that shifts all six existing entries, the oldest included; one
  play that fades the new entry in (it has been appended by then, so the stack holds
  seven entries for a moment); and last the removal of the entry that was at index 0.
  The stack afterwards is the five younger entries followed by the new one.
\<close>

theorem eviction_after_shift_and_insert:
  assumes "text_content_stack s = oldest # rest" and "length rest = 5"
  shows "timeline (add_flowing_text x s) =
           timeline s
           @ [Play (Shift oldest TEXT_FLOW_SHIFT # map (\<lambda>m. Shift m TEXT_FLOW_SHIFT) rest) (1 / 2),
              Play [FadeIn x (11 / 10)] (4 / 5),
              Remove oldest]
         \<and> text_content_stack (add_flowing_text x s) = rest @ [x]"
  using assms by (simp add: timeline_add_flowing_text stack_add_flowing_text)

theorem eviction_after_shift_and_insert_witness:
  "text_content_stack full_stack_scene =
     TextObj 0 # [TextObj 1, TextObj 2, TextObj 3, TextObj 4, TextObj 5]
   \<and> length [TextObj 1, TextObj 2, TextObj 3, TextObj 4, TextObj 5] = 5
   \<and> text_content_stack (add_flowing_text (TextObj 6) full_stack_scene) =
       [TextObj 1, TextObj 2, TextObj 3, TextObj 4, TextObj 5, TextObj 6]
   \<and> last (timeline (add_flowing_text (TextObj 6) full_stack_scene)) = Remove (TextObj 0)"
  using eviction_after_shift_and_insert
          [of full_stack_scene "TextObj 0"
              "[TextObj 1, TextObj 2, TextObj 3, TextObj 4, TextObj 5]" "TextObj 6"]
  by (simp add: stack_full_stack_scene)

section \<open>Positions of the stacked entries\<close>

lemma vadd_smul_zero: "vadd p (smul 0 v) = p"
  by (cases p, cases v) (simp add: vadd_def smul_def)

lemma vadd_smul_Suc: "vadd (vadd p (smul (real n) v)) v = vadd p (smul (real (Suc n)) v)"
  by (cases p, cases v) (simp add: vadd_def smul_def algebra_simps)

lemma fold_animate_shift:
  "distinct ms \<Longrightarrow>
   fold animate (map (\<lambda>m. Shift m v) ms) c = (\<lambda>m. if m \<in> set ms then vadd (c m) v else c m)"
proof (induction ms arbitrary: c)
  case Nil
  then show ?case by simp
next
  case (Cons a ms)
  then show ?case by (auto simp: fun_eq_iff)
qed

lemma centre_add_flowing_text:
  assumes "distinct (text_content_stack s)" and "x \<notin> set (text_content_stack s)"
  shows "centre (add_flowing_text x s) m =
           (if m = x then text_center_position
            else if m \<in> set (text_content_stack s) then vadd (centre s m) TEXT_FLOW_SHIFT
            else centre s m)"
  using assms
  by (cases "text_content_stack s")
     (auto simp: add_flowing_text_def Let_def play_def move_to_def remove_mobject_def
        fold_animate_shift)

lemma centre_fold_add_flowing_text:
  "distinct xs \<Longrightarrow> j < length xs \<Longrightarrow> length xs \<le> j + 6 \<Longrightarrow>
   centre (fold add_flowing_text xs init_scene) (xs ! j) =
     vadd text_center_position (smul (real (length xs - 1 - j)) TEXT_FLOW_SHIFT)"
proof (induction xs arbitrary: j rule: rev_induct)
  case Nil
  then show ?case by simp
next
  case (snoc x ys)
  let ?s = "fold add_flowing_text ys init_scene"
  have stk: "text_content_stack ?s = drop (length ys - 6) ys"
    using stack_fold_add_flowing_text [of init_scene ys] by (simp add: init_scene_def)
  from snoc.prems have dys: "distinct ys" and xys: "x \<notin> set ys" by simp_all
  have d1: "distinct (text_content_stack ?s)" using dys stk by simp
  have d2: "x \<notin> set (text_content_stack ?s)"
    using xys stk by (metis in_set_dropD)
  have step: "centre (fold add_flowing_text (ys @ [x]) init_scene) m =
                (if m = x then text_center_position
                 else if m \<in> set (drop (length ys - 6) ys)
                      then vadd (centre ?s m) TEXT_FLOW_SHIFT
                 else centre ?s m)" for m
    using centre_add_flowing_text [OF d1 d2, of m] stk by simp
  show ?case
  proof (cases "j = length ys")
    case True
    then show ?thesis using step [of x] by (simp add: vadd_smul_zero)
  next
    case False
    with snoc.prems have jl: "j < length ys" and le: "length ys \<le> j + 5" by simp_all
    have neq: "ys ! j \<noteq> x" using xys jl by (metis nth_mem)
    have "ys ! j = drop (length ys - 6) ys ! (j - (length ys - 6))"
      using jl le by simp
    moreover have "j - (length ys - 6) < length (drop (length ys - 6) ys)"
      using jl le by simp
    ultimately have mem: "ys ! j \<in> set (drop (length ys - 6) ys)"
      by (metis nth_mem)
    have ih: "centre ?s (ys ! j) =
                vadd text_center_position (smul (real (length ys - 1 - j)) TEXT_FLOW_SHIFT)"
      using snoc.IH [of j] dys jl le by simp
    have eq: "length (ys @ [x]) - 1 - j = Suc (length ys - 1 - j)" using jl by simp
    have "centre (fold add_flowing_text (ys @ [x]) init_scene) ((ys @ [x]) ! j) =
            vadd (centre ?s (ys ! j)) TEXT_FLOW_SHIFT"
      using step [of "ys ! j"] neq mem jl by (simp add: nth_append)
    also have "\<dots> = vadd (vadd text_center_position
                  (smul (real (length ys - 1 - j)) TEXT_FLOW_SHIFT)) TEXT_FLOW_SHIFT"
      by (simp only: ih)
    also have "\<dots> = vadd text_center_position
                  (smul (real (Suc (length ys - 1 - j))) TEXT_FLOW_SHIFT)"
      by (rule vadd_smul_Suc)
    finally show ?thesis by (simp only: eq)
  qed
qed

text \<open>
  C4. Post pairwise distinct text objects \<open>xs\<close>, one after the other, onto the empty
  stack. Then the entry at index \<open>i\<close> of the stack sits at the anchor
  \<open>text_center_position\<close> plus \<open>TEXT_FLOW_SHIFT\<close> times the number of entries posted
  after it, which is \<open>length stack - 1 - i\<close>; the most recent entry (the last index) sits
  at the anchor itself.
\<close>

theorem overlay_positions_by_age:
  assumes "distinct xs"
      and "i < length (text_content_stack (fold add_flowing_text xs init_scene))"
  shows "centre (fold add_flowing_text xs init_scene)
           (text_content_stack (fold add_flowing_text xs init_scene) ! i) =
         vadd text_center_position
           (smul (real (length (text_content_stack (fold add_flowing_text xs init_scene)) - 1 - i))
              TEXT_FLOW_SHIFT)
       \<and> centre (fold add_flowing_text xs init_scene)
           (last (text_content_stack (fold add_flowing_text xs init_scene))) =
         text_center_position"
proof -
  let ?s = "fold add_flowing_text xs init_scene"
  let ?k = "length xs - 6"
  have stk: "text_content_stack ?s = drop ?k xs"
    using stack_fold_add_flowing_text [of init_scene xs] by (simp add: init_scene_def)
  from assms(2) stk have i: "i < length xs - ?k" by simp
  then have ne: "xs \<noteq> []" by auto
  have nth: "drop ?k xs ! i = xs ! (?k + i)" using i by simp
  have "centre ?s (xs ! (?k + i)) =
          vadd text_center_position (smul (real (length xs - 1 - (?k + i))) TEXT_FLOW_SHIFT)"
    using centre_fold_add_flowing_text [OF assms(1), of "?k + i"] i by simp
  moreover have "length xs - 1 - (?k + i) = length (drop ?k xs) - 1 - i" using i by simp
  ultimately have a: "centre ?s (text_content_stack ?s ! i) =
      vadd text_center_position
        (smul (real (length (text_content_stack ?s) - 1 - i)) TEXT_FLOW_SHIFT)"
    using stk nth by simp
  have "centre ?s (xs ! (length xs - 1)) =
          vadd text_center_position (smul (real (length xs - 1 - (length xs - 1))) TEXT_FLOW_SHIFT)"
    using centre_fold_add_flowing_text [OF assms(1), of "length xs - 1"] ne by simp
  moreover have "last (drop ?k xs) = xs ! (length xs - 1)"
    using ne i by (simp add: last_conv_nth)
  ultimately have b: "centre ?s (last (text_content_stack ?s)) = text_center_position"
    using stk by (simp add: vadd_smul_zero)
  from a b show ?thesis by simp
qed

lemma stack_seven_posts:
  "text_content_stack (fold add_flowing_text seven_posts init_scene) =
     [TextObj 1, TextObj 2, TextObj 3, TextObj 4, TextObj 5, TextObj 6]"
  using stack_fold_add_flowing_text [of init_scene seven_posts]
  by (simp add: init_scene_def seven_posts_def)

theorem overlay_positions_by_age_witness:
  "distinct seven_posts
   \<and> 0 < length (text_content_stack (fold add_flowing_text seven_posts init_scene))
   \<and> centre (fold add_flowing_text seven_posts init_scene) (TextObj 1) = (3, 31 / 2, 0)
   \<and> centre (fold add_flowing_text seven_posts init_scene) (TextObj 6) = (3, 1 / 2, 0)"
proof -
  have d: "distinct seven_posts" by (simp add: seven_posts_def)
  have i: "0 < length (text_content_stack (fold add_flowing_text seven_posts init_scene))"
    by (simp add: stack_seven_posts)
  show ?thesis
    using d i overlay_positions_by_age [OF d i]
    by (simp add: stack_seven_posts text_center_position_def TEXT_FLOW_SHIFT_def
          vadd_def smul_def UP_def RIGHT_def)
qed

section \<open>Narration blocks: run times requested\<close>

lemma timeline_keep_animation_running:
  "timeline (keep_animation_running d s) =
     timeline s @ [Play [Shift Dummy (smul (1 / 1000) UP)] d, Remove Dummy]"
  by (simp add: keep_animation_running_def Let_def play_def move_to_def remove_mobject_def)

lemma timeline_scene_1_voiceover_1:
  "timeline (scene_1_voiceover_1 d s) =
     timeline s
     @ [Play [Create Wall, Create Spring, Create Mass, Create EquilibriumLine] (min 3 (d * (1 / 2))),
        Play [Create AmplitudeMarkers] 1]
     @ (if d > 4 then [Play [Shift Dummy (smul (1 / 1000) UP)] (d - 4), Remove Dummy] else [])"
  by (simp add: scene_1_voiceover_1_def Let_def timeline_keep_animation_running
        create_spring_mass_system_def play_def move_to_def max_def)

lemma timeline_scene_1_voiceover_3:
  "timeline (scene_1_voiceover_3 d x s) =
     timeline (add_flowing_text x s)
     @ (if d > 1 then [Play [Shift Dummy (smul (1 / 1000) UP)] (d - 1), Remove Dummy] else [])"
  by (simp add: scene_1_voiceover_3_def Let_def timeline_keep_animation_running max_def)

lemma stack_keep_animation_running:
  "text_content_stack (keep_animation_running d s) = text_content_stack s"
  by (simp add: keep_animation_running_def Let_def play_def move_to_def remove_mobject_def)

lemma stack_scene_1_voiceover_1:
  "text_content_stack (scene_1_voiceover_1 d s) = text_content_stack s"
  by (simp add: scene_1_voiceover_1_def Let_def stack_keep_animation_running
        create_spring_mass_system_def play_def move_to_def)

lemma stack_scene_1_voiceover_2:
  "text_content_stack (scene_1_voiceover_2 d x s) =
     text_content_stack (add_flowing_text x s)"
  by (simp add: scene_1_voiceover_2_def Let_def stack_keep_animation_running
        stack_add_flowing_text highlight_amplitude_concept_def play_def)

lemma timeline_scene_1_voiceover_2:
  "timeline (scene_1_voiceover_2 d x s) =
     timeline (add_flowing_text x (highlight_amplitude_concept s))
     @ (if d > 2 then [Play [Shift Dummy (smul (1 / 1000) UP)] (d - 2), Remove Dummy] else [])"
  by (simp add: scene_1_voiceover_2_def Let_def timeline_keep_animation_running max_def)

text \<open>
  C1 at \<open>tracker.duration = 5\<close>. In the first narration block the two plays take
  \<open>min 3 (5 / 2) + 1 = 7 / 2\<close>, the keep-alive runs for \<open>max 0 (5 - 4) = 1\<close>, and the
  block asks for \<open>9 / 2\<close> in all, where C1 has a keep-alive of \<open>5 - 7 / 2 = 3 / 2\<close>
  and a total of \<open>5\<close>. Over the whole of \<^verbatim>\<open>scene_1_oscillator_setup\<close>, with
  5 seconds of narration in each of the three blocks, the keep-alives are 1, 3 and 4:
  the third block plays \<open>1 / 2 + 4 / 5\<close> and then pads by \<open>5 - 1\<close>, so it runs for
  \<open>53 / 10\<close>, longer than its narration; the three blocks ask for \<open>74 / 5\<close> instead
  of 15.
\<close>

theorem scene_1_keep_alive_misses_narration:
  "action_run_times (timeline (scene_1_voiceover_1 5 init_scene)) = [5 / 2, 1]
   \<and> keep_alive_run_times (timeline (scene_1_voiceover_1 5 init_scene)) = [1]
   \<and> elapsed (timeline (scene_1_voiceover_1 5 init_scene)) = 9 / 2
   \<and> action_run_times
         (timeline (scene_1_oscillator_setup 5 5 5 (TextObj 0) (TextObj 1) init_scene)) =
       [5 / 2, 1, 3 / 5, 3 / 5, 4 / 5, 1 / 2, 4 / 5]
   \<and> keep_alive_run_times
         (timeline (scene_1_oscillator_setup 5 5 5 (TextObj 0) (TextObj 1) init_scene)) =
       [1, 3, 4]
   \<and> elapsed (timeline (scene_1_oscillator_setup 5 5 5 (TextObj 0) (TextObj 1) init_scene)) =
       74 / 5"
proof -
  have t1: "timeline (scene_1_voiceover_1 5 init_scene) =
      [Play [Create Wall, Create Spring, Create Mass, Create EquilibriumLine] (5 / 2),
       Play [Create AmplitudeMarkers] 1,
       Play [Shift Dummy (smul (1 / 1000) UP)] 1, Remove Dummy]"
    by (simp add: timeline_scene_1_voiceover_1 init_scene_def)
  have k1: "text_content_stack (scene_1_voiceover_1 5 init_scene) = []"
    by (simp add: stack_scene_1_voiceover_1 init_scene_def)
  have k2: "text_content_stack
              (scene_1_voiceover_2 5 (TextObj 0) (scene_1_voiceover_1 5 init_scene)) =
            [TextObj 0]"
    by (simp add: stack_scene_1_voiceover_2 stack_add_flowing_text k1)
  have t2: "timeline (scene_1_voiceover_2 5 (TextObj 0) (scene_1_voiceover_1 5 init_scene)) =
      timeline (scene_1_voiceover_1 5 init_scene)
      @ [Play [SetColor AmplitudeMarkers YELLOW] (3 / 5),
         Play [SetColor AmplitudeMarkers BLUE] (3 / 5),
         Play [FadeIn (TextObj 0) (11 / 10)] (4 / 5),
         Play [Shift Dummy (smul (1 / 1000) UP)] 3, Remove Dummy]"
    by (simp add: timeline_scene_1_voiceover_2 timeline_add_flowing_text
          highlight_amplitude_concept_def Let_def play_def k1)
  have t3: "timeline (scene_1_oscillator_setup 5 5 5 (TextObj 0) (TextObj 1) init_scene) =
      timeline (scene_1_voiceover_2 5 (TextObj 0) (scene_1_voiceover_1 5 init_scene))
      @ [Play [Shift (TextObj 0) TEXT_FLOW_SHIFT] (1 / 2),
         Play [FadeIn (TextObj 1) (11 / 10)] (4 / 5),
         Play [Shift Dummy (smul (1 / 1000) UP)] 4, Remove Dummy]"
    by (simp add: scene_1_oscillator_setup_def timeline_scene_1_voiceover_3
          timeline_add_flowing_text k2)
  have a: "action_run_times (timeline (scene_1_voiceover_1 5 init_scene)) = [5 / 2, 1]"
    by (simp add: t1 action_run_times_def)
  have b: "keep_alive_run_times (timeline (scene_1_voiceover_1 5 init_scene)) = [1]"
    by (simp add: t1 keep_alive_run_times_def)
  have c: "elapsed (timeline (scene_1_voiceover_1 5 init_scene)) = 9 / 2"
    by (simp add: t1 elapsed_def)
  have d: "action_run_times
             (timeline (scene_1_oscillator_setup 5 5 5 (TextObj 0) (TextObj 1) init_scene)) =
           [5 / 2, 1, 3 / 5, 3 / 5, 4 / 5, 1 / 2, 4 / 5]"
    unfolding t3 t2 t1 by (simp add: action_run_times_def)
  have e: "keep_alive_run_times
             (timeline (scene_1_oscillator_setup 5 5 5 (TextObj 0) (TextObj 1) init_scene)) =
           [1, 3, 4]"
    unfolding t3 t2 t1 by (simp add: keep_alive_run_times_def)
  have f: "elapsed
             (timeline (scene_1_oscillator_setup 5 5 5 (TextObj 0) (TextObj 1) init_scene)) =
           74 / 5"
    unfolding t3 t2 t1 by (simp add: elapsed_def)
  from a b c d e f show ?thesis by blast
qed

text \<open>
  Where the literal subtracted is the sum of the run times played, the padding is exact:
  in the second block, entered with an empty text stack, the plays take
  \<open>0.6 + 0.6 + 0.8 = 2\<close> and the block asks for the narration's duration in all.
\<close>

lemma scene_1_second_block_matches_narration:
  assumes "text_content_stack s = []" and "d \<ge> 2"
  shows "elapsed (timeline (scene_1_voiceover_2 d x s)) = elapsed (timeline s) + d"
  using assms
  by (simp add: timeline_scene_1_voiceover_2 timeline_add_flowing_text
        highlight_amplitude_concept_def Let_def play_def elapsed_def)



section \<open>Physical model: bounds, energy and redraw\<close>

lemma ke_max_value: "ke_max = pi * pi / 8"
  by (simp add: ke_max_def amplitude_visual_def period_def power2_eq_square)

lemma ke_max_above_epsilon: "ke_max > 1 / 10 ^ 10"
proof -
  have "2 * 2 \<le> pi * pi"
    by (rule mult_mono) (use pi_ge_two in auto)
  then show ?thesis by (simp add: ke_max_value)
qed

lemma pe_max_above_epsilon: "pe_max > 1 / 10 ^ 10"
  by (simp add: pe_max_def amplitude_visual_def)

lemma kinetic_fraction_is_sin_squared:
  "get_kinetic_energy_fraction s = (sin (2 * pi * current_time s / period)) ^ 2"
proof -
  have pos: "pi * pi > 0" by simp
  have "get_kinetic_energy_fraction s =
          ((1 / 2) * (- amplitude_visual * (2 * pi / period)
             * sin (2 * pi * current_time s / period)) ^ 2) / ke_max"
    using ke_max_above_epsilon by (simp add: get_kinetic_energy_fraction_def Let_def)
  also have "\<dots> = (sin (2 * pi * current_time s / period)) ^ 2"
    using pos by (simp add: ke_max_value amplitude_visual_def period_def power2_eq_square
                    field_simps)
  finally show ?thesis .
qed

lemma potential_fraction_is_cos_squared:
  "get_potential_energy_fraction s = (cos (2 * pi * current_time s / period)) ^ 2"
  using pe_max_above_epsilon
  by (simp add: get_potential_energy_fraction_def Let_def harmonic_offset_def pe_max_def
        amplitude_visual_def power2_eq_square)

text \<open>
  C5. At every time \<open>t\<close> (negative ones included) the displacement of the mass is at
  most the amplitude in absolute value, by the cosine alone: the clamp of
  \<^verbatim>\<open>draw_constrained_mass\<close> returns the displacement unchanged, and the circle is
  drawn at \<open>equilibrium_x\<close> plus the unclamped displacement.
\<close>

theorem amplitude_bound_by_cosine:
  "\<bar>harmonic_offset t\<bar> \<le> amplitude_visual
   \<and> clamp_offset (harmonic_offset t) = harmonic_offset t
   \<and> draw_constrained_mass s =
       Circle (1 / 5) YELLOW (4 / 5) 3 YELLOW
         (equilibrium_x + harmonic_offset (current_time s), 1 / 2, 0)"
proof -
  have b: "\<bar>harmonic_offset u\<bar> \<le> amplitude_visual" for u
    by (simp add: harmonic_offset_def amplitude_visual_def)
  then have c: "clamp_offset (harmonic_offset u) = harmonic_offset u" for u
    by (simp add: clamp_offset_def not_less [symmetric])
  show ?thesis
    using b [of t] c [of t] c [of "current_time s"]
    by (simp add: draw_constrained_mass_def Let_def colors_mass_def
          DIAGRAM_BASELINE_SHIFT_def smul_def UP_def)
qed

lemma cos_one_positive: "0 < cos (1::real)"
proof -
  have "\<bar>sin (1 / 2 :: real)\<bar> \<le> 1 / 2"
    using abs_sin_x_le_abs_x [of "1 / 2"] by simp
  then have "(sin (1 / 2 :: real)) ^ 2 \<le> (1 / 2) ^ 2"
    by (metis abs_ge_zero power2_abs power_mono)
  then have sq: "(sin (1 / 2 :: real)) ^ 2 \<le> 1 / 4" by (simp add: power2_eq_square)
  have "cos (1::real) = 1 - 2 * sin (1 / 2) ^ 2"
    using cos_double_sin [of "1 / 2 :: real"] by simp
  with sq show ?thesis by simp
qed

lemma pi_neq_two: "pi \<noteq> 2"
proof
  assume "pi = 2"
  then have "cos (1::real) = cos (pi / 2)" by simp
  then have "cos (1::real) = 0" by (simp only: cos_pi_half)
  with cos_one_positive show False by simp
qed

lemma energies_at_zero: "ke_current 0 + pe_current 0 = 1 / 2"
  by (simp add: ke_current_def pe_current_def harmonic_offset_def Let_def
        amplitude_visual_def period_def)

lemma energies_at_one: "ke_current 1 + pe_current 1 = pi * pi / 8"
  by (simp add: ke_current_def pe_current_def harmonic_offset_def Let_def
        amplitude_visual_def period_def power2_eq_square)

text \<open>
  C6, as stated, fails: the kinetic and the potential energy that the code computes do
  not add up to a constant, and never to the configured total energy of 160. At clock
  time 0 their sum is \<open>1 / 2\<close> (all potential), at clock time 1 it is \<open>pi * pi / 8\<close>
  (all kinetic): the two are computed with unit mass and unit spring constant, so their
  maxima differ.
\<close>

theorem energy_sum_not_constant_counterexample:
  "ke_current 0 + pe_current 0 = 1 / 2
   \<and> ke_current 1 + pe_current 1 = pi * pi / 8
   \<and> ke_current 0 + pe_current 0 \<noteq> ke_current 1 + pe_current 1
   \<and> ke_current 0 + pe_current 0 \<noteq> total_energy
   \<and> ke_current 1 + pe_current 1 \<noteq> total_energy"
proof -
  have "pi + 2 > 0" using pi_gt_zero by linarith
  then have "(pi - 2) * (pi + 2) \<noteq> 0"
    using pi_neq_two by simp
  then have ne4: "pi * pi \<noteq> 4" by (simp add: algebra_simps)
  have "pi * pi < 4 * 4"
    by (rule mult_strict_mono) (use pi_less_4 in auto)
  then have lt: "pi * pi / 8 < 160" by simp
  have a: "ke_current 0 + pe_current 0 \<noteq> ke_current 1 + pe_current 1"
    using ne4 by (simp add: energies_at_zero energies_at_one)
  have b: "ke_current 0 + pe_current 0 \<noteq> total_energy"
    by (simp add: energies_at_zero total_energy_def)
  have c: "ke_current 1 + pe_current 1 \<noteq> total_energy"
    using lt by (simp add: energies_at_one total_energy_def)
  from a b c energies_at_zero energies_at_one show ?thesis by blast
qed

text \<open>
  C6, amended. At every clock time the kinetic energy divided by its maximum and the
  potential energy divided by its maximum, which is what
  \<^verbatim>\<open>get_kinetic_energy_fraction\<close> and \<^verbatim>\<open>get_potential_energy_fraction\<close> return,
  add up to 1: they are the squared sine and the squared cosine of the same phase.
\<close>

theorem energy_fractions_sum_to_one:
  "get_kinetic_energy_fraction s + get_potential_energy_fraction s = 1
   \<and> get_kinetic_energy_fraction s = (sin (2 * pi * current_time s / period)) ^ 2
   \<and> get_potential_energy_fraction s = (cos (2 * pi * current_time s / period)) ^ 2
   \<and> get_kinetic_energy_fraction s = ke_current (current_time s) / ke_max
   \<and> get_potential_energy_fraction s = pe_current (current_time s) / pe_max"
proof -
  have k: "get_kinetic_energy_fraction s = ke_current (current_time s) / ke_max"
    using ke_max_above_epsilon
    by (simp add: get_kinetic_energy_fraction_def ke_current_def Let_def)
  have p: "get_potential_energy_fraction s = pe_current (current_time s) / pe_max"
    using pe_max_above_epsilon
    by (simp add: get_potential_energy_fraction_def pe_current_def Let_def)
  have "get_kinetic_energy_fraction s + get_potential_energy_fraction s = 1"
    by (simp add: kinetic_fraction_is_sin_squared potential_fraction_is_cos_squared)
  with k p kinetic_fraction_is_sin_squared [of s] potential_fraction_is_cos_squared [of s]
  show ?thesis by blast
qed

text \<open>
  C10. Both maxima are constants above the threshold \<open>1e-10\<close>, so both functions take
  the dividing branch at every clock time, never the fallback \<open>0.0\<close>, and both
  fractions lie between 0 and 1.
\<close>

theorem energy_fractions_in_unit_interval:
  "ke_max > 1 / 10 ^ 10 \<and> pe_max > 1 / 10 ^ 10
   \<and> get_kinetic_energy_fraction s =
       ((1 / 2) * (- amplitude_visual * (2 * pi / period)
          * sin (2 * pi * current_time s / period)) ^ 2) / ke_max
   \<and> get_potential_energy_fraction s =
       ((1 / 2) * (harmonic_offset (current_time s)) ^ 2) / pe_max
   \<and> 0 \<le> get_kinetic_energy_fraction s \<and> get_kinetic_energy_fraction s \<le> 1
   \<and> 0 \<le> get_potential_energy_fraction s \<and> get_potential_energy_fraction s \<le> 1"
proof -
  have k: "get_kinetic_energy_fraction s =
       ((1 / 2) * (- amplitude_visual * (2 * pi / period)
          * sin (2 * pi * current_time s / period)) ^ 2) / ke_max"
    using ke_max_above_epsilon by (simp add: get_kinetic_energy_fraction_def Let_def)
  have p: "get_potential_energy_fraction s =
       ((1 / 2) * (harmonic_offset (current_time s)) ^ 2) / pe_max"
    using pe_max_above_epsilon by (simp add: get_potential_energy_fraction_def Let_def)
  have s1: "(sin (2 * pi * current_time s / period)) ^ 2 \<le> 1"
    using abs_sin_le_one [of "2 * pi * current_time s / period"]
    by (simp add: abs_square_le_1)
  have c1: "(cos (2 * pi * current_time s / period)) ^ 2 \<le> 1"
    using abs_cos_le_one [of "2 * pi * current_time s / period"]
    by (simp add: abs_square_le_1)
  have r: "0 \<le> get_kinetic_energy_fraction s \<and> get_kinetic_energy_fraction s \<le> 1
         \<and> 0 \<le> get_potential_energy_fraction s \<and> get_potential_energy_fraction s \<le> 1"
    using s1 c1
    by (simp add: kinetic_fraction_is_sin_squared potential_fraction_is_cos_squared)
  from k p r ke_max_above_epsilon pe_max_above_epsilon show ?thesis by blast
qed

text \<open>
  C7. What the two redraw functions return depends on the scene through the renderer's
  clock only: two scenes with the same clock reading give the same mass and the same
  spring, whatever else differs between them (text stack, centres, timeline). The
  functions return a drawing and write nothing back.
\<close>

theorem redraw_depends_on_clock_only:
  assumes "renderer_time s1 = renderer_time s2"
  shows "draw_constrained_mass s1 = draw_constrained_mass s2
         \<and> draw_constrained_spring s1 = draw_constrained_spring s2"
  using assms
  by (simp add: draw_constrained_mass_def draw_constrained_spring_def current_time_def)

theorem redraw_depends_on_clock_only_witness:
  "renderer_time (init_scene\<lparr>renderer_time := Some 1\<rparr>) =
     renderer_time (add_flowing_text (TextObj 0) (init_scene\<lparr>renderer_time := Some 1\<rparr>))
   \<and> draw_constrained_mass (add_flowing_text (TextObj 0) (init_scene\<lparr>renderer_time := Some 1\<rparr>))
       = draw_constrained_mass (init_scene\<lparr>renderer_time := Some 1\<rparr>)
   \<and> draw_constrained_spring (add_flowing_text (TextObj 0) (init_scene\<lparr>renderer_time := Some 1\<rparr>))
       = draw_constrained_spring (init_scene\<lparr>renderer_time := Some 1\<rparr>)"
proof -
  have h: "renderer_time (init_scene\<lparr>renderer_time := Some 1\<rparr>) =
     renderer_time (add_flowing_text (TextObj 0) (init_scene\<lparr>renderer_time := Some 1\<rparr>))"
    by (simp add: add_flowing_text_def Let_def play_def move_to_def init_scene_def)
  show ?thesis
    using h redraw_depends_on_clock_only [OF h] by simp
qed

section \<open>Notation formatting: the squared-symbol lines\<close>

lemma occurs_iff: "occurs old s \<longleftrightarrow> (\<exists>xs ys. s = xs @ old @ ys)"
proof (induction s)
  case Nil
  then show ?case by auto
next
  case (Cons c cs)
  show ?case
  proof
    assume "occurs old (c # cs)"
    then consider "take (length old) (c # cs) = old" | "occurs old cs" by auto
    then show "\<exists>xs ys. c # cs = xs @ old @ ys"
    proof cases
      case 1
      have "c # cs = [] @ take (length old) (c # cs) @ drop (length old) (c # cs)"
        by (simp only: append_Nil append_take_drop_id)
      with 1 show ?thesis by metis
    next
      case 2
      with Cons.IH obtain xs ys where "cs = xs @ old @ ys" by blast
      then have "c # cs = (c # xs) @ old @ ys" by simp
      then show ?thesis by blast
    qed
  next
    assume "\<exists>xs ys. c # cs = xs @ old @ ys"
    then obtain xs ys where e: "c # cs = xs @ old @ ys" by blast
    show "occurs old (c # cs)"
    proof (cases xs)
      case Nil
      with e have "take (length old) (c # cs) = old" by simp
      then show ?thesis by simp
    next
      case (Cons a xs')
      with e have "cs = xs' @ old @ ys" by simp
      with Cons.IH have "occurs old cs" by blast
      then show ?thesis by simp
    qed
  qed
qed

lemma occurs_longer: "occurs (pre @ mid @ suf) s \<Longrightarrow> occurs mid s"
proof -
  assume "occurs (pre @ mid @ suf) s"
  then obtain xs ys where "s = xs @ (pre @ mid @ suf) @ ys" by (auto simp: occurs_iff)
  then have "s = (xs @ pre) @ mid @ (suf @ ys)" by simp
  then show ?thesis unfolding occurs_iff by blast
qed

lemma occurs_drop: "occurs old (drop n s) \<Longrightarrow> occurs old s"
proof -
  assume "occurs old (drop n s)"
  then obtain xs ys where "drop n s = xs @ old @ ys" by (auto simp: occurs_iff)
  then have "s = (take n s @ xs) @ old @ ys"
    by (metis append_assoc append_take_drop_id)
  then show ?thesis unfolding occurs_iff by blast
qed

lemma replace_nonempty_absent:
  "\<not> occurs old s \<Longrightarrow> replace_nonempty old new s = s"
  by (induction s) auto

lemma str_replace_absent:
  "old \<noteq> [] \<Longrightarrow> \<not> occurs old s \<Longrightarrow> str_replace old new s = s"
  by (simp add: str_replace_def replace_nonempty_absent)

lemma replace_nonempty_head:
  "replace_nonempty old [n] (c # cs) = r # rs \<Longrightarrow> r = c \<or> r = n"
  by (auto split: if_splits)

text \<open>
  Replacing by a single character that is neither \<^verbatim>\<open>^\<close> (94) nor \<^verbatim>\<open>2\<close> (50)
  leaves no \<^verbatim>\<open>^2\<close> behind when \<^verbatim>\<open>^2\<close> itself is replaced, and creates none
  when something else is.
\<close>

lemma no_caret_two_after_replace:
  fixes n :: nat
  assumes n: "n \<noteq> 94" "n \<noteq> 50" and old: "old \<noteq> []"
      and s: "old = [94, 50] \<or> \<not> occurs [94, 50] s"
  shows "\<not> occurs [94, 50] (replace_nonempty old [n] s)"
  using s
proof (induction s rule: measure_induct_rule [of length])
  case (less s)
  show ?case
  proof (cases s)
    case Nil
    then show ?thesis by simp
  next
    case (Cons c cs)
    show ?thesis
    proof (cases "take (length old) (c # cs) = old")
      case True
      let ?rest = "drop (length old) (c # cs)"
      have shorter: "length ?rest < length s" using old Cons by simp
      have "old = [94, 50] \<or> \<not> occurs [94, 50] ?rest"
        using less.prems Cons occurs_drop [of "[94, 50]" "length old" "c # cs"] by blast
      then have "\<not> occurs [94, 50] (replace_nonempty old [n] ?rest)"
        using less.IH [OF shorter] by blast
      moreover have "replace_nonempty old [n] s = n # replace_nonempty old [n] ?rest"
        using True old Cons by simp
      ultimately show ?thesis using n by simp
    next
      case False
      have shorter: "length cs < length s" using Cons by simp
      have "old = [94, 50] \<or> \<not> occurs [94, 50] cs"
        using less.prems Cons by auto
      then have tail: "\<not> occurs [94, 50] (replace_nonempty old [n] cs)"
        using less.IH [OF shorter] by blast
      have res: "replace_nonempty old [n] s = c # replace_nonempty old [n] cs"
        using False Cons by simp
      have "\<not> (c = 94 \<and> (\<exists>rs. replace_nonempty old [n] cs = 50 # rs))"
      proof
        assume a: "c = 94 \<and> (\<exists>rs. replace_nonempty old [n] cs = 50 # rs)"
        then obtain rs where rs: "replace_nonempty old [n] cs = 50 # rs" by blast
        then obtain d ds where cs: "cs = d # ds" by (cases cs) auto
        from rs cs n have "d = 50" using replace_nonempty_head [of old n d ds 50 rs] by simp
        with a cs have start: "take 2 (c # cs) = [94, 50]" by (simp add: numeral_2_eq_2)
        from less.prems show False
        proof
          assume "old = [94, 50]"
          with start False show False by (simp add: numeral_2_eq_2)
        next
          assume "\<not> occurs [94, 50] s"
          with start Cons show False by (simp add: numeral_2_eq_2)
        qed
      qed
      then have "take (length [94, 50 :: nat]) (c # replace_nonempty old [n] cs) \<noteq> [94, 50]"
        by (cases "replace_nonempty old [n] cs") auto
      with tail res show ?thesis by simp
    qed
  qed
qed

lemma no_caret_two_after_first_two_lines:
  "\<not> occurs [94, 50]
        (str_replace (cps ''^3'') [SUPERSCRIPT_THREE]
           (str_replace (cps ''^2'') [SUPERSCRIPT_TWO] s))"
proof -
  have c2: "cps ''^2'' = [94, 50]" and c3: "cps ''^3'' = [94, 51]"
    by (simp_all add: cps_def)
  have a: "\<not> occurs [94, 50] (replace_nonempty [94, 50] [178] s)"
    by (rule no_caret_two_after_replace) simp_all
  have "\<not> occurs [94, 50] (replace_nonempty [94, 51] [179] (replace_nonempty [94, 50] [178] s))"
    by (rule no_caret_two_after_replace) (use a in simp_all)
  then show ?thesis
    by (simp add: str_replace_def c2 c3 SUPERSCRIPT_TWO_def SUPERSCRIPT_THREE_def)
qed

lemma square_line_is_identity:
  fixes t :: pystr
  assumes "\<not> occurs [94, 50] t"
  shows "str_replace (pre @ [94, 50]) new t = t"
proof -
  have "\<not> occurs (pre @ [94, 50] @ []) t"
    using assms occurs_longer [of pre "[94, 50]" "[]" t] by blast
  then show ?thesis by (simp add: str_replace_absent)
qed

text \<open>
  C9. For every input string, colour and font size, \<^verbatim>\<open>create_superscript_text\<close>
  returns what the variant without the five squared-symbol lines returns; and the input
  \<^verbatim>\<open>w^2\<close> comes out as \<^verbatim>\<open>w\<close> followed by the superscript two, with no omega.
\<close>

theorem square_replacement_lines_are_dead:
  "create_superscript_text text_string col fsize =
     create_superscript_text_without_square_lines text_string col fsize
   \<and> text_value (create_superscript_text (cps ''w^2'') col fsize) = cps ''w'' @ [SUPERSCRIPT_TWO]"
proof -
  define t2 where "t2 = str_replace (cps ''^3'') [SUPERSCRIPT_THREE]
                          (str_replace (cps ''^2'') [SUPERSCRIPT_TWO] text_string)"
  have clean: "\<not> occurs [94, 50] t2"
    unfolding t2_def by (rule no_caret_two_after_first_two_lines)
  have v: "cps ''v^2'' = cps ''v'' @ [94, 50]" and x: "cps ''x^2'' = cps ''x'' @ [94, 50]"
    and A: "cps ''A^2'' = cps ''A'' @ [94, 50]" and w: "cps ''w^2'' = cps ''w'' @ [94, 50]"
    and om: "cps ''omega^2'' = cps ''omega'' @ [94, 50]"
    by (simp_all add: cps_def)
  have dead: "str_replace (cps ''omega^2'') n5
                (str_replace (cps ''w^2'') n4
                  (str_replace (cps ''A^2'') n3
                    (str_replace (cps ''x^2'') n2
                      (str_replace (cps ''v^2'') n1 t2)))) = t2" for n1 n2 n3 n4 n5
    unfolding v x A w om using clean by (simp add: square_line_is_identity)
  have eq: "create_superscript_text text_string col fsize =
              create_superscript_text_without_square_lines text_string col fsize"
    unfolding create_superscript_text_def create_superscript_text_without_square_lines_def Let_def
    using dead by (simp only: t2_def)
  have ex: "text_value (create_superscript_text (cps ''w^2'') col fsize) = cps ''w'' @ [SUPERSCRIPT_TWO]"
    by (simp add: create_superscript_text_def Let_def str_replace_def cps_def
          SUPERSCRIPT_TWO_def)
  from eq ex show ?thesis by simp
qed
end
